theory Spec2Isabelle
  imports Complex_Main "HOL-Library.Word"
begin

section \<open>The utility fragment \<open>src/utils.c\<close>: validation guards and the random source\<close>

subsection \<open>C types\<close>

text \<open>
  The guards only compare their arguments, so the machine integers are kept at their
  width and read through \<open>sint\<close> (two's complement) wherever the C type is signed:
  \<open>int\<close> is 32 bits, \<open>long long int\<close> and \<open>time_t\<close> are 64 bits, \<open>unsigned int\<close>
  is 32 bits, \<open>unsigned long\<close> is 64 bits (LP64). A \<open>void *\<close> is its address, with
  \<open>NULL\<close> the address 0.
\<close>

type_synonym c_int = "32 word"
type_synonym c_uint = "32 word"
type_synonym c_ulong = "64 word"
type_synonym c_llong = "64 word"
type_synonym time_t = "64 word"
type_synonym c_ptr = "64 word"

definition NULL :: c_ptr where
  "NULL = 0"

subsection \<open>Process termination as a value\<close>

text \<open>
  \<open>exit(status)\<close> never returns: a call that reaches it yields \<open>Inl (Exit status)\<close>,
  a call that returns normally yields \<open>Inr\<close> of its result. Reading \<open>init_key[0]\<close> of
  an array with no element is outside the C semantics; the model names it
  \<open>OutOfBounds\<close> instead of inventing a value.
\<close>

datatype error = Exit int | OutOfBounds

type_synonym 'a result = "error + 'a"

subsection \<open>The validation guards\<close>

text \<open>
  \<^verbatim>\<open>
  void validateControlTarget(int controlQubit, int targetQubit, int numQubits) {
      if (controlQubit >= numQubits || targetQubit >= numQubits || controlQubit == targetQubit) {
          exit(1);
      }
  }
  \<close>
\<close>

definition validateControlTarget :: "c_int \<Rightarrow> c_int \<Rightarrow> c_int \<Rightarrow> unit result" where
  "validateControlTarget controlQubit targetQubit numQubits =
     (if sint controlQubit \<ge> sint numQubits \<or> sint targetQubit \<ge> sint numQubits
         \<or> controlQubit = targetQubit
      then Inl (Exit 1)
      else Inr ())"

text \<open>
  \<^verbatim>\<open>
  void validateTarget(int targetQubit, int numQubits) {
      if (targetQubit >= numQubits) {
          exit(1);
      }
  }
  \<close>
\<close>

definition validateTarget :: "c_int \<Rightarrow> c_int \<Rightarrow> unit result" where
  "validateTarget targetQubit numQubits =
     (if sint targetQubit \<ge> sint numQubits then Inl (Exit 1) else Inr ())"

text \<open>
  \<^verbatim>\<open>
  void validateNumQubitsInQureg(int numQubits) {
      if (numQubits <= 0 || numQubits > 50) {
          exit(1);
      }
  }
  \<close>
  (\<open>DEBUG_PRINT\<close> expands to \<open>((void)0)\<close> and is left out everywhere.)
\<close>

definition validateNumQubitsInQureg :: "c_int \<Rightarrow> unit result" where
  "validateNumQubitsInQureg numQubits =
     (if sint numQubits \<le> 0 \<or> sint numQubits > 50 then Inl (Exit 1) else Inr ())"

text \<open>
  \<^verbatim>\<open>
  void validateMemoryAllocationSize(long long int numValues) {
      if (numValues <= 0) {
          exit(1);
      }
  }
  \<close>
\<close>

definition validateMemoryAllocationSize :: "c_llong \<Rightarrow> unit result" where
  "validateMemoryAllocationSize numValues =
     (if sint numValues \<le> 0 then Inl (Exit 1) else Inr ())"

text \<open>
  \<^verbatim>\<open>
  void validateQuregAllocation(void* qureg, int numQubits) {
      if (qureg == NULL) {
          exit(1);
      }
  }
  \<close>
\<close>

definition validateQuregAllocation :: "c_ptr \<Rightarrow> c_int \<Rightarrow> unit result" where
  "validateQuregAllocation qureg numQubits =
     (if qureg = NULL then Inl (Exit 1) else Inr ())"

text \<open>
  \<^verbatim>\<open>
  void raiseQASMBufferOverflow() {
      exit(1);
  }
  \<close>
\<close>

definition raiseQASMBufferOverflow :: "unit \<Rightarrow> unit result" where
  "raiseQASMBufferOverflow u = Inl (Exit 1)"


subsection \<open>Doubles\<close>

text \<open>
  A \<open>double\<close> is an IEEE 754 binary64 value: a finite number (given by its real
  value), an infinity or a NaN. \<open>round_binary64\<close> rounds a real number to 53
  significant bits, to the nearest and at a tie to the even significand. The
  exponent range of binary64 is left out: the only number rounded is a quotient of
  two 32-bit integers, which is 0 or has a magnitude from \<open>2 ^ -31\<close> to \<open>2 ^ 31\<close>.

  \<open>double_div a b\<close> is the C expression \<^verbatim>\<open>(double)a / (double)b\<close> for two
  \<open>int\<close> values: the conversions are exact (an \<open>int\<close> has at most 31 significant
  bits), the division is correctly rounded, and a zero divisor gives an infinity
  or, for \<open>0 / 0\<close>, a NaN.
\<close>

datatype c_double = Finite real | PlusInf | MinusInf | NaN

definition round_half_even :: "real \<Rightarrow> int" where
  "round_half_even y =
     (let f = \<lfloor>y\<rfloor>; d = y - of_int f
      in if d < 1 / 2 then f
         else if 1 / 2 < d then f + 1
         else if even f then f else f + 1)"

definition round_binary64 :: "real \<Rightarrow> real" where
  "round_binary64 x =
     (if x = 0 then 0
      else let e = \<lfloor>log 2 \<bar>x\<bar>\<rfloor>;
               q = 2 powr of_int (e - 52)
           in sgn x * of_int (round_half_even (\<bar>x\<bar> / q)) * q)"

definition double_div :: "int \<Rightarrow> int \<Rightarrow> c_double" where
  "double_div a b =
     (if b = 0
      then (if a = 0 then NaN else if 0 < a then PlusInf else MinusInf)
      else Finite (round_binary64 (of_int a / of_int b)))"

subsection \<open>The C library's generator\<close>

text \<open>
  \<open>srand\<close>, \<open>rand\<close> and \<open>RAND_MAX\<close> come from \<^verbatim>\<open>stdlib.h\<close>, not from this
  repository, so the functions below take the library as a parameter. \<open>srand\<close> starts
  a new sequence that depends on the seed alone; \<open>rand\<close> returns the next value and
  advances the hidden state \<open>'g\<close>.
\<close>

record 'g libc =
  RAND_MAX :: c_int
  srand :: "c_uint \<Rightarrow> 'g"
  rand :: "'g \<Rightarrow> c_int \<times> 'g"

text \<open>
  The process state the fragment reads and writes: the \<open>static int initialized\<close> of
  \<open>genrand_real1\<close> and the library's generator state. At process start the flag is 0
  and the generator is as after \<open>srand(1)\<close> (ISO C 7.22.2.2).
\<close>

record 'g proc =
  initialized :: c_int
  gen :: 'g

definition startup :: "'g libc \<Rightarrow> 'g proc" where
  "startup L = \<lparr>initialized = 0, gen = srand L 1\<rparr>"

text \<open>
  \<^verbatim>\<open>
  double genrand_real1() {
      static int initialized = 0;
      if (!initialized) {
          srand(time(NULL));
          initialized = 1;
      }
      return (double)rand() / (double)RAND_MAX;
  }
  \<close>
  \<open>now\<close> is what \<open>time(NULL)\<close> returns at this call; passing a \<open>time_t\<close> to
  \<open>srand\<close> converts it to \<open>unsigned int\<close>, that is, keeps its low 32 bits.
  \<open>genrand_real1_init\<close> is the \<open>if (!initialized)\<close> block. The value returned
  is the double that the division of the two converted integers gives.
\<close>

definition genrand_real1_init :: "'g libc \<Rightarrow> time_t \<Rightarrow> 'g proc \<Rightarrow> 'g proc" where
  "genrand_real1_init L now s =
     (if initialized s = 0
      then s\<lparr>gen := srand L (ucast now), initialized := 1\<rparr>
      else s)"

definition genrand_real1 :: "'g libc \<Rightarrow> time_t \<Rightarrow> 'g proc \<Rightarrow> c_double \<times> 'g proc" where
  "genrand_real1 L now s =
     (let s1 = genrand_real1_init L now s;
          (r, g) = rand L (gen s1)
      in (double_div (sint r) (sint (RAND_MAX L)), s1\<lparr>gen := g\<rparr>))"

text \<open>
  \<^verbatim>\<open>
  void init_by_array(unsigned long init_key[], int key_length) {
      srand(init_key[0]);
  }
  \<close>
  \<open>init_key\<close> is the list of the elements the pointer gives access to; with none,
  reading \<open>init_key[0]\<close> is \<open>OutOfBounds\<close>. The \<open>unsigned long\<close> is converted to
  the \<open>unsigned int\<close> that \<open>srand\<close> takes.
\<close>

definition init_by_array :: "'g libc \<Rightarrow> c_ulong list \<Rightarrow> c_int \<Rightarrow> 'g proc \<Rightarrow> 'g proc result" where
  "init_by_array L init_key key_length s =
     (case init_key of
        [] \<Rightarrow> Inl OutOfBounds
      | k # _ \<Rightarrow> Inr (s\<lparr>gen := srand L (ucast k)\<rparr>))"

subsection \<open>Callers: runs of draws\<close>

text \<open>
  \<open>draws L ts s\<close> makes one \<open>genrand_real1()\<close> call per element of \<open>ts\<close>, the
  clock reading at that call, and collects the values returned.
  \<open>reseed_then_draw\<close> is the scenario of a caller that seeds by array and then
  draws.
\<close>

fun draws :: "'g libc \<Rightarrow> time_t list \<Rightarrow> 'g proc \<Rightarrow> c_double list \<times> 'g proc" where
  "draws L [] s = ([], s)"
| "draws L (now # ts) s =
     (let (x, s1) = genrand_real1 L now s;
          (xs, s2) = draws L ts s1
      in (x # xs, s2))"

definition reseed_then_draw ::
  "'g libc \<Rightarrow> c_ulong list \<Rightarrow> c_int \<Rightarrow> time_t list \<Rightarrow> 'g proc \<Rightarrow> c_double list result" where
  "reseed_then_draw L init_key key_length ts s =
     (case init_by_array L init_key key_length s of
        Inl e \<Rightarrow> Inl e
      | Inr s1 \<Rightarrow> Inr (fst (draws L ts s1)))"

subsection \<open>A concrete library for evaluation\<close>

text \<open>
  The portable implementation that ISO C 7.22.2.2 gives as its example, with
  \<open>RAND_MAX\<close> 32767:
  \<^verbatim>\<open>
  static unsigned long int next = 1;
  int rand(void) {
      next = next * 1103515245 + 12345;
      return (unsigned int)(next/65536) % 32768;
  }
  void srand(unsigned int seed) { next = seed; }
  \<close>
\<close>

definition iso_rand :: "c_ulong \<Rightarrow> c_int \<times> c_ulong" where
  "iso_rand next =
     (let n = next * 1103515245 + 12345
      in ((ucast (n div 65536) :: c_uint) mod 32768, n))"

definition iso_libc :: "c_ulong libc" where
  "iso_libc = \<lparr>RAND_MAX = 32767, srand = (\<lambda>seed. ucast seed), rand = iso_rand\<rparr>"

subsection \<open>Callers: any sequence of calls\<close>

text \<open>
  A caller's sequence of calls into the random source. \<open>seeds_from_clock c s\<close> says
  that the call \<open>c\<close>, made in state \<open>s\<close>, executes \<open>srand(time(NULL))\<close>;
  \<open>clock_seedings\<close> counts these over a run, which stops at an \<open>OutOfBounds\<close>
  read. \<open>well_formed\<close> calls pass at least one key.
\<close>

datatype call = Draw time_t | Reseed "c_ulong list" c_int

fun call_step :: "'g libc \<Rightarrow> call \<Rightarrow> 'g proc \<Rightarrow> 'g proc result" where
  "call_step L (Draw now) s = Inr (snd (genrand_real1 L now s))"
| "call_step L (Reseed init_key key_length) s = init_by_array L init_key key_length s"

fun seeds_from_clock :: "call \<Rightarrow> 'g proc \<Rightarrow> bool" where
  "seeds_from_clock (Draw now) s = (initialized s = 0)"
| "seeds_from_clock (Reseed init_key key_length) s = False"

fun clock_seedings :: "'g libc \<Rightarrow> call list \<Rightarrow> 'g proc \<Rightarrow> nat" where
  "clock_seedings L [] s = 0"
| "clock_seedings L (c # cs) s =
     (if seeds_from_clock c s then 1 else 0)
     + (case call_step L c s of Inl e \<Rightarrow> 0 | Inr s1 \<Rightarrow> clock_seedings L cs s1)"

fun is_draw :: "call \<Rightarrow> bool" where
  "is_draw (Draw now) = True"
| "is_draw (Reseed init_key key_length) = False"

fun well_formed :: "call \<Rightarrow> bool" where
  "well_formed (Draw now) = True"
| "well_formed (Reseed init_key key_length) = (init_key \<noteq> [])"


section \<open>The guards\<close>

text \<open>
  C5. \<open>validateNumQubitsInQureg count\<close> returns normally exactly when
  \<open>1 \<le> count \<le> 50\<close>; for every other 32-bit \<open>int\<close> (\<open>count \<le> 0\<close> or
  \<open>count > 50\<close>) it ends the process, with status 1.
\<close>

theorem validateNumQubitsInQureg_range:
  "(validateNumQubitsInQureg count = Inr ()) = (1 \<le> sint count \<and> sint count \<le> 50)
   \<and> (validateNumQubitsInQureg count = Inl (Exit 1)) = (sint count \<le> 0 \<or> 50 < sint count)"
  by (auto simp: validateNumQubitsInQureg_def)

text \<open>
  C7. \<open>validateMemoryAllocationSize n\<close>, for \<open>n\<close> a 64-bit signed integer, returns
  normally for every positive \<open>n\<close> and ends the process for every \<open>n \<le> 0\<close>.
\<close>

theorem validateMemoryAllocationSize_positive:
  "(validateMemoryAllocationSize n = Inr ()) = (0 < sint n)
   \<and> (validateMemoryAllocationSize n = Inl (Exit 1)) = (sint n \<le> 0)"
  by (auto simp: validateMemoryAllocationSize_def)

text \<open>
  C4, as the claim states it: \<open>validateControlTarget\<close> returns normally exactly
  when control and target differ and both lie in \<open>[0, total)\<close>. The guard has no
  lower bound: with control \<open>-1\<close>, target \<open>0\<close> and total \<open>5\<close> it returns normally
  although control is not in \<open>[0, 5)\<close>.
\<close>

theorem validateControlTarget_negative_control_counterexample:
  "\<not> ((validateControlTarget (- 1) 0 5 = Inr ())
        = ((- 1 :: c_int) \<noteq> 0
           \<and> 0 \<le> sint (- 1 :: c_int) \<and> sint (- 1 :: c_int) < sint (5 :: c_int)
           \<and> 0 \<le> sint (0 :: c_int) \<and> sint (0 :: c_int) < sint (5 :: c_int)))"
  by (simp add: validateControlTarget_def)

text \<open>
  C4, amended. \<open>validateControlTarget control target numQubits\<close> returns normally
  exactly when control and target differ and both are below \<open>numQubits\<close> (nothing
  is checked from below); it ends the process, with status 1, exactly when control
  equals target, or control \<open>\<ge> numQubits\<close>, or target \<open>\<ge> numQubits\<close>.
\<close>

theorem validateControlTarget_iff:
  "(validateControlTarget control target numQubits = Inr ())
     = (control \<noteq> target \<and> sint control < sint numQubits \<and> sint target < sint numQubits)
   \<and> (validateControlTarget control target numQubits = Inl (Exit 1))
     = (control = target \<or> sint control \<ge> sint numQubits \<or> sint target \<ge> sint numQubits)"
  by (auto simp: validateControlTarget_def)

text \<open>
  C8. \<open>raiseQASMBufferOverflow\<close> ends the process on every call, and every guard
  that does not return normally ends the process with status 1 and no other.
\<close>

theorem guards_exit_status_1:
  "raiseQASMBufferOverflow u = Inl (Exit 1)
   \<and> (validateControlTarget control target numQubits = Inr ()
        \<or> validateControlTarget control target numQubits = Inl (Exit 1))
   \<and> (validateTarget target numQubits = Inr () \<or> validateTarget target numQubits = Inl (Exit 1))
   \<and> (validateNumQubitsInQureg count = Inr ()
        \<or> validateNumQubitsInQureg count = Inl (Exit 1))
   \<and> (validateMemoryAllocationSize n = Inr ()
        \<or> validateMemoryAllocationSize n = Inl (Exit 1))
   \<and> (validateQuregAllocation qureg qubits = Inr ()
        \<or> validateQuregAllocation qureg qubits = Inl (Exit 1))"
  by (simp add: raiseQASMBufferOverflow_def validateControlTarget_def validateTarget_def
      validateNumQubitsInQureg_def validateMemoryAllocationSize_def
      validateQuregAllocation_def)

text \<open>
  C9. \<open>validateQuregAllocation\<close> has a second parameter \<open>numQubits\<close>, and its outcome
  depends on the pointer alone: two calls with the same pointer behave alike whatever
  the two \<open>numQubits\<close> are, and the call returns normally exactly when the pointer is
  not \<open>NULL\<close>.
\<close>

theorem validateQuregAllocation_pointer_only:
  "validateQuregAllocation qureg n1 = validateQuregAllocation qureg n2
   \<and> (validateQuregAllocation qureg n1 = Inr ()) = (qureg \<noteq> NULL)"
  by (simp add: validateQuregAllocation_def)

text \<open>
  C10. Negative indices pass the guards. A negative target below \<open>numQubits\<close> passes
  \<open>validateTarget\<close>, and two distinct negative indices below \<open>numQubits\<close> pass
  \<open>validateControlTarget\<close>; \<open>numQubits\<close> may be 0.
\<close>

theorem negative_indices_pass:
  "(sint target < 0 \<and> sint target < sint numQubits
      \<longrightarrow> validateTarget target numQubits = Inr ())
   \<and> (sint control < 0 \<and> sint target < 0 \<and> control \<noteq> target
       \<and> sint control < sint numQubits \<and> sint target < sint numQubits
      \<longrightarrow> validateControlTarget control target numQubits = Inr ())"
  by (simp add: validateTarget_def validateControlTarget_def)

theorem negative_indices_pass_witness:
  "sint (- 1 :: c_int) < 0 \<and> sint (- 1 :: c_int) < sint (0 :: c_int)
   \<and> validateTarget (- 1) 0 = Inr ()
   \<and> sint (- 2 :: c_int) < 0 \<and> (- 2 :: c_int) \<noteq> - 1
   \<and> sint (- 2 :: c_int) < sint (0 :: c_int)
   \<and> validateControlTarget (- 2) (- 1) 0 = Inr ()"
  using negative_indices_pass [of "- 1" 0 "- 2"] by simp

section \<open>Rounding to a double\<close>

text \<open>
  \<open>round_half_even\<close> on a quotient of integers is integer division with the
  remainder compared to half the divisor; it moves its argument by at most
  \<open>1 / 2\<close>. \<open>round_binary64\<close> keeps 1, keeps the sign of a non-negative number,
  gives a positive number a significand of 53 bits and moves it by at most the
  fraction \<open>2 ^ -53\<close> of it, and takes a quotient of integers below 1 (with a
  divisor below \<open>2 ^ 53\<close>) to a double below 1.
\<close>

lemma round_half_even_ratio:
  assumes "0 < q"
  shows "round_half_even (of_int p / of_int q) =
     (if 2 * (p mod q) < q then p div q
      else if q < 2 * (p mod q) then p div q + 1
      else if even (p div q) then p div q else p div q + 1)"
proof -
  have f: "\<lfloor>real_of_int p / real_of_int q\<rfloor> = p div q"
    by (simp add: floor_divide_of_int_eq)
  have "real_of_int p = real_of_int (p div q) * real_of_int q + real_of_int (p mod q)"
    by (metis of_int_add of_int_mult div_mult_mod_eq)
  then have d: "real_of_int p / real_of_int q - real_of_int (p div q) = real_of_int (p mod q) / real_of_int q"
    using assms by (simp add: field_simps)
  have c1: "(real_of_int (p mod q) / real_of_int q < 1 / 2) = (2 * (p mod q) < q)"
    using assms by (simp add: field_simps) linarith
  have c2: "(1 / 2 < real_of_int (p mod q) / real_of_int q) = (q < 2 * (p mod q))"
    using assms by (simp add: field_simps) linarith
  show ?thesis
    unfolding round_half_even_def Let_def f d c1 c2 by simp
qed

lemma round_half_even_near: "\<bar>of_int (round_half_even y) - y\<bar> \<le> 1 / 2"
  unfolding round_half_even_def Let_def by (auto; linarith)

lemma round_half_even_of_int: "round_half_even (of_int n) = n"
  by (simp add: round_half_even_def)

lemma two_powr_neg: "(2::real) powr (- real n) = 1 / 2 ^ n"
  by (simp add: powr_minus_divide powr_realpow)

lemma round_binary64_below_1:
  assumes "1 \<le> x * 2 ^ Suc k" and "x * 2 ^ k < 1"
  shows "round_binary64 x = of_int (round_half_even (x * 2 ^ (53 + k))) / 2 ^ (53 + k)"
proof -
  have pos: "0 < x"
  proof (rule ccontr)
    assume "\<not> 0 < x"
    then have "x * 2 ^ Suc k \<le> 0" by (simp add: mult_le_0_iff)
    with assms(1) show False by simp
  qed
  have e3: "real_of_int (- int (Suc k) - 52) = - real (53 + k)" by simp
  have lo: "2 powr real_of_int (- int (Suc k)) = 1 / 2 ^ Suc k"
    using two_powr_neg [of "Suc k"] by simp
  have hi: "2 powr (real_of_int (- int (Suc k)) + 1) = 1 / 2 ^ k"
    using two_powr_neg [of k] by simp
  have "2 powr real_of_int (- int (Suc k)) \<le> x \<and> x < 2 powr (real_of_int (- int (Suc k)) + 1)"
    unfolding lo hi using assms by (simp add: field_simps)
  then have "\<lfloor>log 2 x\<rfloor> = - int (Suc k)"
    using pos by (subst floor_log_eq_powr_iff) simp_all
  moreover have "2 powr real_of_int (- int (Suc k) - 52) = 1 / 2 ^ (53 + k)"
    unfolding e3 by (rule two_powr_neg)
  ultimately show ?thesis
    using pos by (simp add: round_binary64_def Let_def)
qed

lemma round_binary64_1: "round_binary64 1 = 1"
proof -
  have q: "(2::real) powr - 52 = 1 / 2 ^ 52"
    using two_powr_neg [of 52] by simp
  have n: "round_half_even 4503599627370496 = 4503599627370496"
    using round_half_even_of_int [of 4503599627370496] by simp
  show ?thesis
    by (simp add: round_binary64_def Let_def q n)
qed

lemma round_binary64_nonneg: "0 \<le> x \<Longrightarrow> 0 \<le> round_binary64 x"
proof -
  assume x: "0 \<le> x"
  have "0 \<le> round_half_even y" if "0 \<le> y" for y
    using that by (auto simp: round_half_even_def Let_def)
  then show ?thesis
    using x by (simp add: round_binary64_def Let_def sgn_if)
qed

lemma round_binary64_accuracy:
  assumes "0 < x"
  shows "\<bar>round_binary64 x - x\<bar> \<le> x / 2 ^ 53"
proof -
  define e where "e = \<lfloor>log 2 x\<rfloor>"
  define q :: real where "q = 2 powr of_int (e - 52)"
  have q: "0 < q" by (simp add: q_def)
  have r: "round_binary64 x = of_int (round_half_even (x / q)) * q"
    using assms by (simp add: round_binary64_def Let_def e_def q_def)
  have "2 powr of_int e \<le> x"
    using assms floor_log_eq_powr_iff [of x 2 e] by (simp add: e_def)
  moreover have "(2::real) powr of_int e = q * 2 ^ 52"
  proof -
    have "(2::real) powr of_int e = 2 powr (of_int (e - 52) + 52)" by simp
    also have "\<dots> = q * 2 powr 52" unfolding q_def by (rule powr_add)
    finally show ?thesis by (simp add: powr_realpow [symmetric])
  qed
  ultimately have qx: "q * 2 ^ 52 \<le> x" by simp
  have "\<bar>of_int (round_half_even (x / q)) - x / q\<bar> \<le> 1 / 2"
    by (rule round_half_even_near)
  then have "\<bar>of_int (round_half_even (x / q)) - x / q\<bar> * q \<le> 1 / 2 * q"
    using q by (intro mult_right_mono) simp_all
  moreover have "\<bar>of_int (round_half_even (x / q)) - x / q\<bar> * q = \<bar>round_binary64 x - x\<bar>"
  proof -
    have "(of_int (round_half_even (x / q)) - x / q) * q = round_binary64 x - x"
      using q unfolding r by (simp add: field_simps)
    then have "\<bar>of_int (round_half_even (x / q)) - x / q\<bar> * \<bar>q\<bar> = \<bar>round_binary64 x - x\<bar>"
      by (simp only: abs_mult [symmetric])
    then show ?thesis using q by simp
  qed
  ultimately have "\<bar>round_binary64 x - x\<bar> \<le> q / 2" by simp
  also have "q / 2 \<le> x / 2 ^ 53"
    using qx by (simp add: field_simps)
  finally show ?thesis .
qed

lemma round_binary64_significand:
  assumes "0 < x"
  shows "\<exists>n e. round_binary64 x = of_int n * 2 powr of_int (e - 52) \<and> 2 ^ 52 \<le> n \<and> n \<le> 2 ^ 53"
proof -
  define e where "e = \<lfloor>log 2 x\<rfloor>"
  define q :: real where "q = 2 powr of_int (e - 52)"
  define n where "n = round_half_even (x / q)"
  have q: "0 < q" by (simp add: q_def)
  have r: "round_binary64 x = of_int n * q"
    using assms by (simp add: round_binary64_def Let_def e_def q_def n_def)
  have bounds: "2 powr of_int e \<le> x \<and> x < 2 powr (of_int e + 1)"
    using assms floor_log_eq_powr_iff [of x 2 e] by (simp add: e_def)
  have lo: "(2::real) powr of_int e = q * 2 ^ 52"
  proof -
    have "(2::real) powr of_int e = 2 powr (of_int (e - 52) + 52)" by simp
    also have "\<dots> = q * 2 powr 52" unfolding q_def by (rule powr_add)
    finally show ?thesis by (simp add: powr_realpow [symmetric])
  qed
  have hi: "(2::real) powr (of_int e + 1) = q * 2 ^ 53"
  proof -
    have "real_of_int e + 1 = real_of_int (e - 52) + 53" by simp
    then have "(2::real) powr (of_int e + 1) = 2 powr (of_int (e - 52) + 53)" by (simp only:)
    also have "\<dots> = q * 2 powr 53" unfolding q_def by (rule powr_add)
    finally show ?thesis by (simp add: powr_realpow [symmetric])
  qed
  have s1: "2 ^ 52 \<le> x / q" and s2: "x / q < 2 ^ 53"
    using bounds q unfolding lo hi by (simp_all add: field_simps)
  have f1: "2 ^ 52 \<le> \<lfloor>x / q\<rfloor>"
  proof -
    have "real_of_int (2 ^ 52) \<le> x / q" using s1 by simp
    then show ?thesis by (simp only: le_floor_iff)
  qed
  have f2: "\<lfloor>x / q\<rfloor> < 2 ^ 53"
  proof -
    have "x / q < real_of_int (2 ^ 53)" using s2 by simp
    then show ?thesis by (simp only: floor_less_iff)
  qed
  have "2 ^ 52 \<le> n \<and> n \<le> 2 ^ 53"
    using f1 f2 unfolding n_def round_half_even_def Let_def by auto
  with r show ?thesis
    unfolding q_def by blast
qed

lemma round_binary64_quotient_below_1:
  assumes "0 \<le> a" and "a < b" and "b < (2::int) ^ 53"
  shows "round_binary64 (of_int a / of_int b) < 1"
proof (cases "a = 0")
  case True
  then show ?thesis by (simp add: round_binary64_def)
next
  case False
  define x where "x = real_of_int a / real_of_int b"
  have b: "0 < real_of_int b" using assms by simp
  have x: "0 < x" using False assms by (simp add: x_def)
  have "real_of_int a \<le> real_of_int b - 1" using assms(2) by linarith
  then have x1: "x \<le> 1 - 1 / real_of_int b"
    using b by (simp add: x_def field_simps)
  have "real_of_int b < real_of_int (2 ^ 53)" using assms(3) by (simp only: of_int_less_iff)
  then have "real_of_int b < 2 ^ 53" by simp
  then have inv: "1 / 2 ^ 53 < 1 / real_of_int b"
    using b by (simp add: field_simps)
  have "round_binary64 x \<le> x + x / 2 ^ 53"
    using round_binary64_accuracy [OF x] by linarith
  also have "x / 2 ^ 53 \<le> 1 / 2 ^ 53"
  proof -
    have "0 < 1 / real_of_int b" using b by simp
    then have "x \<le> 1" using x1 by linarith
    then show ?thesis by (simp add: divide_right_mono)
  qed
  finally show ?thesis
    using x1 inv unfolding x_def by linarith
qed

text \<open>
  Evaluation of \<open>double_div\<close> on integers: equal positive operands give 1, and a
  quotient in \<open>[2 ^ -(k+1), 2 ^ -k)\<close> is rounded at the scale \<open>2 ^ -(53+k)\<close> by
  integer division.
\<close>

lemma double_div_same: "0 < a \<Longrightarrow> double_div a a = Finite 1"
  by (simp add: double_div_def round_binary64_1)

lemma round_binary64_quotient:
  assumes "0 < a" and "a * 2 ^ k < b" and "b \<le> a * 2 ^ Suc k"
  shows "round_binary64 (real_of_int a / real_of_int b) =
     real_of_int
       (if 2 * ((a * 2 ^ (53 + k)) mod b) < b then (a * 2 ^ (53 + k)) div b
        else if b < 2 * ((a * 2 ^ (53 + k)) mod b) then (a * 2 ^ (53 + k)) div b + 1
        else if even ((a * 2 ^ (53 + k)) div b) then (a * 2 ^ (53 + k)) div b
        else (a * 2 ^ (53 + k)) div b + 1)
     / 2 ^ (53 + k)"
proof -
  have "0 < a * 2 ^ k"
    using assms(1) by simp
  then have b: "0 < b"
    using assms(2) by linarith
  have rb: "0 < real_of_int b" using b by simp
  have "real_of_int b \<le> real_of_int (a * 2 ^ Suc k)"
    using assms(3) by (simp only: of_int_le_iff)
  then have lo: "1 \<le> real_of_int a / real_of_int b * 2 ^ Suc k"
    using rb by (simp add: field_simps)
  have "real_of_int (a * 2 ^ k) < real_of_int b"
    using assms(2) by (simp only: of_int_less_iff)
  then have hi: "real_of_int a / real_of_int b * 2 ^ k < 1"
    using rb by (simp add: field_simps)
  have "real_of_int a / real_of_int b * 2 ^ (53 + k)
        = real_of_int (a * 2 ^ (53 + k)) / real_of_int b"
    by simp
  then show ?thesis
    using round_binary64_below_1 [OF lo hi] round_half_even_ratio [OF b, of "a * 2 ^ (53 + k)"]
    by (simp only:)
qed

lemma double_div_16838: "double_div 16838 32767 = Finite (1157133862203809 / 2251799813685248)"
  using round_binary64_quotient [of 16838 0 32767] by (simp add: double_div_def)

lemma double_div_28322: "double_div 28322 32767 = Finite (7785329669874397 / 9007199254740992)"
  using round_binary64_quotient [of 28322 0 32767] by (simp add: double_div_def)

lemma double_div_7943: "double_div 7943 32767 = Finite (1091710923801503 / 4503599627370496)"
  using round_binary64_quotient [of 7943 2 32767] by (simp add: double_div_def)

lemma double_div_23876: "double_div 23876 32767 = Finite (6563185198711995 / 9007199254740992)"
  using round_binary64_quotient [of 23876 0 32767] by (simp add: double_div_def)

lemma double_div_27186: "double_div 27186 32767 = Finite (1868264709459125 / 2251799813685248)"
  using round_binary64_quotient [of 27186 0 32767] by (simp add: double_div_def)

lemma double_div_19081: "double_div 19081 32767 = Finite (5245105410312597 / 9007199254740992)"
  using round_binary64_quotient [of 19081 0 32767] by (simp add: double_div_def)

lemma double_div_17033: "double_div 17033 32767 = Finite (4682138276497797 / 9007199254740992)"
  using round_binary64_quotient [of 17033 0 32767] by (simp add: double_div_def)

section \<open>The random source\<close>

subsection \<open>The seed-by-array entry point\<close>

text \<open>
  C6. For every key array and every two counts \<open>c1\<close>, \<open>c2\<close>,
  \<open>init_by_array keys c1\<close> and \<open>init_by_array keys c2\<close> leave the same state: the
  count is never read. With a first key \<open>k\<close> the generator afterwards is
  \<open>srand k\<close>, whatever it was before and whatever the other keys are.
\<close>

theorem init_by_array_ignores_key_length:
  "init_by_array L keys c1 s = init_by_array L keys c2 s
   \<and> init_by_array L (k # ks) c1 s = Inr (s\<lparr>gen := srand L (ucast k)\<rparr>)"
  by (simp add: init_by_array_def)

subsection \<open>The range of a draw\<close>

text \<open>
  C3, as the claim states it: every draw lies in \<open>[0, 1)\<close>. With the library of
  ISO C and the clock reading 1700037309 at the first call, \<open>rand()\<close> returns
  \<open>RAND_MAX\<close> and the draw is the double 1.
\<close>

theorem genrand_real1_reaches_1_counterexample:
  "fst (rand iso_libc (gen (genrand_real1_init iso_libc 1700037309 (startup iso_libc))))
     = RAND_MAX iso_libc
   \<and> fst (genrand_real1 iso_libc 1700037309 (startup iso_libc)) = Finite 1"
  by (simp add: genrand_real1_def genrand_real1_init_def startup_def iso_libc_def iso_rand_def
      Let_def double_div_same)

text \<open>
  C3, amended. Whenever \<open>rand()\<close> returns \<open>r\<close> in \<open>[0, RAND_MAX]\<close>,
  \<open>genrand_real1\<close> returns \<open>r / RAND_MAX\<close> as a double: the finite double \<open>x\<close>
  that is the quotient \<open>q\<close> rounded to binary64, off \<open>q\<close> by at most
  \<open>q / 2 ^ 53\<close>. It lies in the closed interval \<open>[0, 1]\<close>, and it is below 1
  exactly when \<open>r\<close> is not \<open>RAND_MAX\<close>.
\<close>

theorem genrand_real1_unit_interval:
  assumes "rand L (gen (genrand_real1_init L now s)) = (r, g)"
    and "0 \<le> sint r" and "sint r \<le> sint (RAND_MAX L)" and "0 < sint (RAND_MAX L)"
  shows "let q = real_of_int (sint r) / real_of_int (sint (RAND_MAX L));
             x = round_binary64 q
         in fst (genrand_real1 L now s) = Finite x
            \<and> \<bar>x - q\<bar> \<le> q / 2 ^ 53
            \<and> 0 \<le> x \<and> x \<le> 1
            \<and> (x < 1) = (r \<noteq> RAND_MAX L)"
proof -
  define a m where "a = sint r" and "m = sint (RAND_MAX L)"
  define q where "q = real_of_int a / real_of_int m"
  have am: "0 \<le> a" "a \<le> m" "0 < m"
    using assms(2-4) by (simp_all add: a_def m_def)
  have m53: "m < 2 ^ 53"
  proof -
    have "m < 2 ^ (LENGTH(32) - 1)" unfolding m_def by (rule sint_lt)
    also have "\<dots> \<le> (2::int) ^ 53" by simp
    finally show ?thesis .
  qed
  have val: "fst (genrand_real1 L now s) = Finite (round_binary64 q)"
    using assms(1) am(3)
    by (simp add: genrand_real1_def Let_def double_div_def a_def m_def q_def)
  have q0: "0 \<le> q" using am by (simp add: q_def)
  have acc: "\<bar>round_binary64 q - q\<bar> \<le> q / 2 ^ 53"
  proof (cases "q = 0")
    case True
    then show ?thesis by (simp add: round_binary64_def)
  next
    case False
    with q0 have "0 < q" by simp
    then show ?thesis by (rule round_binary64_accuracy)
  qed
  have nonneg: "0 \<le> round_binary64 q"
    using q0 by (rule round_binary64_nonneg)
  have inj: "(r \<noteq> RAND_MAX L) = (a \<noteq> m)"
    using word_eq_iff_signed [where ?'a = int, of r "RAND_MAX L"] by (simp add: a_def m_def)
  have below: "(round_binary64 q < 1) = (a \<noteq> m)" and le1: "round_binary64 q \<le> 1"
  proof -
    consider "a = m" | "a < m" using am(2) by linarith
    then have "(round_binary64 q < 1) = (a \<noteq> m) \<and> round_binary64 q \<le> 1"
    proof cases
      case 1
      then have "q = 1" using am(3) by (simp add: q_def)
      then show ?thesis using 1 by (simp add: round_binary64_1)
    next
      case 2
      then have "round_binary64 q < 1"
        unfolding q_def using am(1) m53 by (intro round_binary64_quotient_below_1)
      then show ?thesis using 2 by simp
    qed
    then show "(round_binary64 q < 1) = (a \<noteq> m)" and "round_binary64 q \<le> 1"
      by simp_all
  qed
  show ?thesis
    using val acc nonneg le1 below unfolding inj q_def a_def m_def Let_def by simp
qed

theorem genrand_real1_unit_interval_witness:
  "rand iso_libc (gen (genrand_real1_init iso_libc 1 (startup iso_libc))) = (16838, 1103527590)
   \<and> 0 \<le> sint (16838 :: c_int) \<and> sint (16838 :: c_int) \<le> sint (RAND_MAX iso_libc)
   \<and> 0 < sint (RAND_MAX iso_libc)
   \<and> fst (genrand_real1 iso_libc 1 (startup iso_libc))
       = Finite (1157133862203809 / 2251799813685248)
   \<and> \<bar>1157133862203809 / 2251799813685248 - 16838 / 32767\<bar> \<le> (16838 / 32767) / (2::real) ^ 53
   \<and> (0::real) \<le> 1157133862203809 / 2251799813685248
   \<and> (1157133862203809 / 2251799813685248 :: real) < 1"
proof -
  have r: "rand iso_libc (gen (genrand_real1_init iso_libc 1 (startup iso_libc))) = (16838, 1103527590)"
    by (simp add: genrand_real1_init_def startup_def iso_libc_def iso_rand_def)
  have m: "sint (RAND_MAX iso_libc) = 32767"
    by (simp add: iso_libc_def)
  have a: "sint (16838 :: c_int) = 16838"
    by simp
  have h: "0 \<le> sint (16838 :: c_int)" "sint (16838 :: c_int) \<le> sint (RAND_MAX iso_libc)"
    "0 < sint (RAND_MAX iso_libc)"
    unfolding m a by simp_all
  have v: "round_binary64 (real_of_int 16838 / real_of_int 32767)
           = 1157133862203809 / 2251799813685248"
    using round_binary64_quotient [of 16838 0 32767] by simp
  have "fst (genrand_real1 iso_libc 1 (startup iso_libc))
          = Finite (1157133862203809 / 2251799813685248)
        \<and> \<bar>1157133862203809 / 2251799813685248 - real_of_int 16838 / real_of_int 32767\<bar>
            \<le> real_of_int 16838 / real_of_int 32767 / 2 ^ 53"
    using genrand_real1_unit_interval [OF r h] unfolding Let_def m a v by simp
  then show ?thesis
    using r h by simp
qed

subsection \<open>Draws after a seed\<close>

text \<open>
  Once the flag is set, a draw never reads the clock: its value and the generator
  it leaves depend on the generator it finds.
\<close>

lemma genrand_real1_sets_initialized:
  "initialized (snd (genrand_real1 L now s)) = (if initialized s = 0 then 1 else initialized s)"
  by (simp add: genrand_real1_def genrand_real1_init_def Let_def split: prod.split)

lemma genrand_real1_clock_independent:
  assumes "initialized s \<noteq> 0" and "initialized s' \<noteq> 0" and "gen s = gen s'"
  shows "fst (genrand_real1 L now s) = fst (genrand_real1 L now' s')
         \<and> gen (snd (genrand_real1 L now s)) = gen (snd (genrand_real1 L now' s'))"
  using assms by (simp add: genrand_real1_def genrand_real1_init_def Let_def split: prod.split)

lemma draws_clock_independent:
  "initialized s \<noteq> 0 \<Longrightarrow> initialized s' \<noteq> 0 \<Longrightarrow> gen s = gen s' \<Longrightarrow> length ts = length ts'
   \<Longrightarrow> fst (draws L ts s) = fst (draws L ts' s')"
proof (induction ts arbitrary: ts' s s')
  case Nil
  then show ?case by simp
next
  case (Cons now ts)
  then obtain now' us where ts': "ts' = now' # us" and len: "length ts = length us"
    by (cases ts') auto
  let ?a = "genrand_real1 L now s" and ?b = "genrand_real1 L now' s'"
  have step: "fst ?a = fst ?b \<and> gen (snd ?a) = gen (snd ?b)"
    using Cons.prems by (intro genrand_real1_clock_independent) auto
  have "fst (draws L ts (snd ?a)) = fst (draws L us (snd ?b))"
    using Cons.prems step len
    by (intro Cons.IH) (auto simp: genrand_real1_sets_initialized)
  with step show ?case
    by (simp add: ts' Let_def split: prod.split) (metis fst_conv snd_conv)
qed

text \<open>
  So in a process that has drawn before, seeding with the same first key gives the
  same draws, whatever the clock, the count and the other keys are.
\<close>

lemma reseed_then_draw_deterministic:
  assumes "initialized s \<noteq> 0" and "initialized s' \<noteq> 0"
    and "length ts = length ts'"
  shows "reseed_then_draw L (k # ks) n ts s = reseed_then_draw L (k # ks') n' ts' s'"
  using assms
  by (simp add: reseed_then_draw_def init_by_array_def draws_clock_independent)

text \<open>
  In a process that has not drawn yet the flag is still 0 after \<open>init_by_array\<close>,
  and the first draw seeds from the clock: the draws are those of a process that
  never called \<open>init_by_array\<close>.
\<close>

lemma reseed_before_first_draw_lost:
  assumes "initialized s = 0"
  shows "reseed_then_draw L (k # ks) n (now # ts) s = Inr (fst (draws L (now # ts) s))"
  using assms
  by (simp add: reseed_then_draw_def init_by_array_def genrand_real1_def genrand_real1_init_def Let_def split: prod.split)

text \<open>
  C1. The claim: after \<open>init_by_array\<close> with the same first key, \<open>k\<close> draws give
  the same values in every run, whatever the clock, also when no draw came before
  the seeding. The code, from process start with the key 42 and the library of
  ISO C: the two draws made at the clock readings 1000, 1001 are the doubles of
  28322 and 7943 over 32767, the two made at 2000, 2001 those of 23876 and 27186,
  and the two runs differ.
\<close>

theorem reseed_before_first_draw_follows_clock:
  "reseed_then_draw iso_libc [42] 1 [1000, 1001] (startup iso_libc)
     = Inr [double_div 28322 32767, double_div 7943 32767]
   \<and> reseed_then_draw iso_libc [42] 1 [2000, 2001] (startup iso_libc)
     = Inr [double_div 23876 32767, double_div 27186 32767]
   \<and> reseed_then_draw iso_libc [42] 1 [1000, 1001] (startup iso_libc)
     \<noteq> reseed_then_draw iso_libc [42] 1 [2000, 2001] (startup iso_libc)"
proof -
  have run1: "reseed_then_draw iso_libc [42] 1 [1000, 1001] (startup iso_libc)
     = Inr [double_div 28322 32767, double_div 7943 32767]"
    by (simp add: reseed_then_draw_def init_by_array_def genrand_real1_def
        genrand_real1_init_def startup_def iso_libc_def iso_rand_def Let_def)
  have run2: "reseed_then_draw iso_libc [42] 1 [2000, 2001] (startup iso_libc)
     = Inr [double_div 23876 32767, double_div 27186 32767]"
    by (simp add: reseed_then_draw_def init_by_array_def genrand_real1_def
        genrand_real1_init_def startup_def iso_libc_def iso_rand_def Let_def)
  have "double_div 28322 32767 \<noteq> double_div 23876 32767"
    unfolding double_div_28322 double_div_23876 by simp
  then show ?thesis
    unfolding run1 run2 by simp
qed

subsection \<open>Seeding from the clock\<close>

lemma call_step_keeps_initialized:
  "initialized s \<noteq> 0 \<Longrightarrow> call_step L c s = Inr s1 \<Longrightarrow> initialized s1 \<noteq> 0"
  by (cases c) (auto simp: genrand_real1_sets_initialized init_by_array_def split: list.splits)

lemma clock_seedings_initialized:
  "initialized s \<noteq> 0 \<Longrightarrow> clock_seedings L cs s = 0"
proof (induction cs arbitrary: s)
  case Nil
  then show ?case by simp
next
  case (Cons c cs)
  have "\<not> seeds_from_clock c s"
    using Cons.prems by (cases c) auto
  then show ?case
    using Cons by (auto split: sum.splits dest: call_step_keeps_initialized)
qed

lemma clock_seedings_once:
  "initialized s = 0 \<Longrightarrow> list_all well_formed cs
   \<Longrightarrow> clock_seedings L cs s = (if list_ex is_draw cs then 1 else 0)"
proof (induction cs arbitrary: s)
  case Nil
  then show ?case by simp
next
  case (Cons c cs)
  show ?case
  proof (cases c)
    case (Draw now)
    have "initialized (snd (genrand_real1 L now s)) \<noteq> 0"
      using Cons.prems by (simp add: genrand_real1_sets_initialized)
    then have "clock_seedings L cs (snd (genrand_real1 L now s)) = 0"
      by (rule clock_seedings_initialized)
    then show ?thesis
      using Cons.prems Draw by simp
  next
    case (Reseed init_key key_length)
    then obtain k ks where k: "init_key = k # ks"
      using Cons.prems by (cases init_key) auto
    have "clock_seedings L cs (s\<lparr>gen := srand L (ucast k)\<rparr>) = (if list_ex is_draw cs then 1 else 0)"
      using Cons.prems by (intro Cons.IH) auto
    then show ?thesis
      using Reseed k by (simp add: init_by_array_def)
  qed
qed

lemma clock_seedings_startup:
  "list_all well_formed cs
   \<Longrightarrow> clock_seedings L cs (startup L) = (if list_ex is_draw cs then 1 else 0)"
  by (rule clock_seedings_once) (simp_all add: startup_def)

text \<open>
  C2. The claim: over any sequence of calls the generator is seeded from the clock
  exactly once, at the first draw, and when \<open>init_by_array\<close> was called before the
  first draw the draws follow the sequence of the given seed, not one of the clock.
  The first half is \<open>clock_seedings_startup\<close>. The code, from process start with
  the key 42 and the library of ISO C: the two draws are those of a process that
  was never seeded by array and reads the clock 1000, and they are not the first
  two values of the seed 42, the doubles of 19081 and 17033 over 32767.
\<close>

theorem reseed_before_first_draw_overwritten:
  "reseed_then_draw iso_libc [42] 1 [1000, 1001] (startup iso_libc)
     = Inr (fst (draws iso_libc [1000, 1001] (startup iso_libc)))
   \<and> fst (draws iso_libc [1000, 1001] \<lparr>initialized = 1, gen = srand iso_libc 42\<rparr>)
     = [double_div 19081 32767, double_div 17033 32767]
   \<and> reseed_then_draw iso_libc [42] 1 [1000, 1001] (startup iso_libc)
     \<noteq> Inr [double_div 19081 32767, double_div 17033 32767]"
proof -
  have clock: "fst (draws iso_libc [1000, 1001] (startup iso_libc))
     = [double_div 28322 32767, double_div 7943 32767]"
    by (simp add: genrand_real1_def genrand_real1_init_def startup_def iso_libc_def
        iso_rand_def Let_def)
  have run: "reseed_then_draw iso_libc [42] 1 [1000, 1001] (startup iso_libc)
     = Inr [double_div 28322 32767, double_div 7943 32767]"
    by (simp add: reseed_then_draw_def init_by_array_def genrand_real1_def
        genrand_real1_init_def startup_def iso_libc_def iso_rand_def Let_def)
  have seed: "fst (draws iso_libc [1000, 1001] \<lparr>initialized = 1, gen = srand iso_libc 42\<rparr>)
     = [double_div 19081 32767, double_div 17033 32767]"
    by (simp add: genrand_real1_def genrand_real1_init_def iso_libc_def iso_rand_def Let_def)
  have "double_div 28322 32767 \<noteq> double_div 19081 32767"
    unfolding double_div_28322 double_div_19081 by simp
  then show ?thesis
    unfolding run clock seed by simp
qed

end
